theory Spec2Isabelle
  imports Main "HOL-Library.Log_Nat" "HOL-Library.Multiset"
begin

section \<open>ColorHunter: the palette extraction pipeline of \<open>ColorHunter.py\<close>\<close>

text \<open>
  The development embeds the four stages of \<open>ColorHunter.extract_colors\<close>: the choice of
  the cluster count, the call of the clusterer (scikit-learn's \<open>KMeans\<close>, a library outside
  the repository and therefore a parameter here), \<open>centerize_histogram\<close> and
  \<open>sort_colors\<close>.  Python integers are \<open>int\<close>; Python floats are the rationals that
  binary64 can represent, with every arithmetic operation rounded as IEEE 754 prescribes;
  exceptions are values of a sum type.
\<close>

subsection \<open>Python exceptions\<close>

text \<open>
  The source defines no exception class and has no \<open>try\<close>.  The exceptions that can leave
  \<open>extract_colors\<close> are \<open>OverflowError\<close>, raised when an \<open>int\<close> too large for a float
  meets a float operand in \<open>luminance\<close>, and whatever the clustering library raises, kept
  here by the name of its class.
\<close>

datatype exn = OverflowError | LibraryError string

subsection \<open>Binary64 arithmetic\<close>

text \<open>Rounding a rational to the nearest integer, ties to the even one.\<close>

definition rne :: "rat \<Rightarrow> int" where
  "rne q = (let f = \<lfloor>q\<rfloor>; d = q - of_int f
            in if d < 1 / 2 then f else if 1 / 2 < d then f + 1
               else if even f then f else f + 1)"

definition pow2 :: "int \<Rightarrow> rat" where
  "pow2 k = (if 0 \<le> k then 2 ^ nat k else 1 / 2 ^ nat (- k))"

text \<open>\<open>ilog2 q\<close> is the integer \<open>k\<close> with \<open>2 ^ k \<le> q < 2 ^ (k + 1)\<close>, for \<open>q > 0\<close>.\<close>

definition ilog2 :: "rat \<Rightarrow> int" where
  "ilog2 q = (case quotient_of q of (a, b) \<Rightarrow>
                let k = bitlen a - bitlen b in if pow2 k \<le> q then k else k - 1)"

text \<open>
  \<open>fl q\<close> rounds \<open>q\<close> to 53 significant bits, ties to even.  No value computed below is
  nonzero and smaller than \<open>2 ^ - 56\<close> in magnitude, so the subnormal range of binary64 is
  never reached; the exponent's upper bound is handled by \<open>float_of_int\<close> and \<open>binary64\<close>.
\<close>

definition fl :: "rat \<Rightarrow> rat" where
  "fl q = (if q = 0 then 0
           else let e = ilog2 \<bar>q\<bar> - 52 in of_int (rne (q / pow2 e)) * pow2 e)"

text \<open>
  The least magnitude that binary64 cannot hold: a value that rounds to it or beyond is an
  infinity.
\<close>

definition float_overflow :: rat where
  "float_overflow = 2 ^ 1024"

text \<open>
  The result of a float operation: the rounded value, or an infinity when it reaches
  \<open>2 ^ 1024\<close>.  The infinities are represented by \<open>2 ^ 1024\<close> and \<open>- 2 ^ 1024\<close>, which
  compare with every finite binary64 value as the infinities do.  An infinity can only be
  the last sum of \<open>luminance\<close>, so it is never an operand.
\<close>

definition binary64 :: "rat \<Rightarrow> rat" where
  "binary64 q = (let v = fl q
                 in if float_overflow \<le> v then float_overflow
                    else if v \<le> - float_overflow then - float_overflow else v)"

definition fmul :: "rat \<Rightarrow> rat \<Rightarrow> rat" where
  "fmul a b = binary64 (a * b)"

definition fadd :: "rat \<Rightarrow> rat \<Rightarrow> rat" where
  "fadd a b = binary64 (a + b)"

text \<open>
  Python converts an \<open>int\<close> operand of a float operation to the nearest float and raises
  \<open>OverflowError\<close> when that is not finite.
\<close>

definition representable :: "int \<Rightarrow> bool" where
  "representable n = (\<bar>fl (of_int n)\<bar> < float_overflow)"

definition float_of_int :: "int \<Rightarrow> exn + rat" where
  "float_of_int n = (if representable n then Inr (fl (of_int n)) else Inl OverflowError)"

subsection \<open>\<open>sort_colors\<close>\<close>

type_synonym color = "int \<times> int \<times> int"

text \<open>
  The nested function \<open>luminance\<close>:
  \<^verbatim>\<open>return 0.299 * color[0] + 0.587 * color[1] + 0.114 * color[2]\<close>.
  The three literals are the floats nearest to the decimals.
\<close>

definition luminance_value :: "color \<Rightarrow> rat" where
  "luminance_value color = (case color of (r, g, b) \<Rightarrow>
     fadd (fadd (fmul (fl (299 / 1000)) (fl (of_int r)))
                (fmul (fl (587 / 1000)) (fl (of_int g))))
          (fmul (fl (114 / 1000)) (fl (of_int b))))"

definition luminance :: "color \<Rightarrow> exn + rat" where
  "luminance color = (case color of (r, g, b) \<Rightarrow>
     (case float_of_int r of Inl e \<Rightarrow> Inl e | Inr fr \<Rightarrow>
     (case float_of_int g of Inl e \<Rightarrow> Inl e | Inr fg \<Rightarrow>
     (case float_of_int b of Inl e \<Rightarrow> Inl e | Inr fb \<Rightarrow>
        Inr (fadd (fadd (fmul (fl (299 / 1000)) fr) (fmul (fl (587 / 1000)) fg))
                  (fmul (fl (114 / 1000)) fb))))))"

text \<open>
  Python's \<open>sorted(xs, key=f)\<close>: the keys are computed first, one call per element in
  order (an exception of \<open>f\<close> leaves \<open>sorted\<close>), then the list is sorted on them by a stable
  sort.
\<close>

fun keyed :: "('a \<Rightarrow> exn + 'k) \<Rightarrow> 'a list \<Rightarrow> exn + ('k \<times> 'a) list" where
  "keyed key [] = Inr []"
| "keyed key (x # xs) =
     (case key x of Inl e \<Rightarrow> Inl e
      | Inr k \<Rightarrow> (case keyed key xs of Inl e \<Rightarrow> Inl e
                  | Inr kxs \<Rightarrow> Inr ((k, x) # kxs)))"

definition sorted_py :: "('a \<Rightarrow> exn + 'k::linorder) \<Rightarrow> 'a list \<Rightarrow> exn + 'a list" where
  "sorted_py key xs =
     (case keyed key xs of Inl e \<Rightarrow> Inl e
      | Inr kxs \<Rightarrow> Inr (map snd (sort_key fst kxs)))"

record buckets =
  reds :: "color list"
  greens :: "color list"
  blues :: "color list"
  rests :: "color list"

text \<open>The body of the loop \<open>for color in color_list\<close>, with \<open>max(*color)\<close> on a triple.\<close>

definition classify :: "buckets \<Rightarrow> color \<Rightarrow> buckets" where
  "classify bs color = (case color of (r, g, b) \<Rightarrow>
     let max_color = max r (max g b)
     in if r = max_color then bs\<lparr>reds := reds bs @ [color]\<rparr>
        else if g = max_color then bs\<lparr>greens := greens bs @ [color]\<rparr>
        else if b = max_color then bs\<lparr>blues := blues bs @ [color]\<rparr>
        else bs\<lparr>rests := rests bs @ [color]\<rparr>)"

definition empty_buckets :: buckets where
  "empty_buckets = \<lparr>reds = [], greens = [], blues = [], rests = []\<rparr>"

definition sort_colors :: "color list \<Rightarrow> exn + color list" where
  "sort_colors color_list =
     (let bs = foldl classify empty_buckets color_list
      in case sorted_py luminance (reds bs) of Inl e \<Rightarrow> Inl e | Inr rs \<Rightarrow>
        (case sorted_py luminance (greens bs) of Inl e \<Rightarrow> Inl e | Inr gs \<Rightarrow>
        (case sorted_py luminance (blues bs) of Inl e \<Rightarrow> Inl e | Inr bl \<Rightarrow>
        (case sorted_py luminance (rests bs) of Inl e \<Rightarrow> Inl e | Inr rest \<Rightarrow>
           Inr (rs @ gs @ bl @ rest)))))"

text \<open>The conditions of the \<open>if\<close>/\<open>elif\<close> chain, each with the failure of the earlier ones.\<close>

definition red_max :: "color \<Rightarrow> bool" where
  "red_max color = (case color of (r, g, b) \<Rightarrow> r = max r (max g b))"

definition green_max :: "color \<Rightarrow> bool" where
  "green_max color = (case color of (r, g, b) \<Rightarrow>
     r \<noteq> max r (max g b) \<and> g = max r (max g b))"

definition blue_max :: "color \<Rightarrow> bool" where
  "blue_max color = (case color of (r, g, b) \<Rightarrow>
     r \<noteq> max r (max g b) \<and> g \<noteq> max r (max g b) \<and> b = max r (max g b))"

definition convertible :: "color \<Rightarrow> bool" where
  "convertible color = (case color of (r, g, b) \<Rightarrow>
     representable r \<and> representable g \<and> representable b)"

text \<open>
  The luminance of the specification, \<open>0.299 R + 0.587 G + 0.114 B\<close> as a number, not as the
  floating-point computation of the source.
\<close>

definition spec_luminance :: "color \<Rightarrow> rat" where
  "spec_luminance color = (case color of (r, g, b) \<Rightarrow>
     299 / 1000 * of_int r + 587 / 1000 * of_int g + 114 / 1000 * of_int b)"

text \<open>The colours of the specification: RGB triples with channels from 0 to 255.\<close>

definition rgb8 :: "color \<Rightarrow> bool" where
  "rgb8 color = (case color of (r, g, b) \<Rightarrow>
     0 \<le> r \<and> r \<le> 255 \<and> 0 \<le> g \<and> g \<le> 255 \<and> 0 \<le> b \<and> b \<le> 255)"

subsection \<open>The clustering and its histogram\<close>

type_synonym pixel = "int \<times> int \<times> int"

text \<open>An image is the array of its rows, each row the array of its pixels.\<close>

type_synonym image = "pixel list list"

text \<open>
  What \<open>extract_colors\<close> reads of the fitted \<open>KMeans\<close> object: \<open>cluster_centers_\<close>, one
  row of three floats per cluster, and \<open>labels_\<close>, the cluster index of every pixel.  The
  centres are finite floats, so the exceptions of \<open>int\<close> on a NaN or an infinity do not
  arise.
\<close>

record clustering =
  cluster_centers :: "(rat \<times> rat \<times> rat) list"
  labels :: "nat list"

text \<open>A numpy float: the histogram is divided by its sum, and \<open>0 / 0\<close> is NaN there.\<close>

datatype npfloat = Finite rat | NaN

text \<open>
  \<open>np.histogram(labels, bins=np.arange(0, L + 1))\<close>: the edges \<open>0, 1, \<dots>, L\<close> make \<open>L\<close>
  bins, bin \<open>i\<close> holding the values \<open>i \<le> x < i + 1\<close>, except the last one, which holds
  \<open>L - 1 \<le> x \<le> L\<close>; values beyond \<open>L\<close> are not counted.
\<close>

definition in_bin :: "nat \<Rightarrow> nat \<Rightarrow> nat \<Rightarrow> bool" where
  "in_bin L i x = (if i + 1 = L then i \<le> x \<and> x \<le> L else x = i)"

definition np_histogram :: "nat list \<Rightarrow> nat \<Rightarrow> nat list" where
  "np_histogram xs L = map (\<lambda>i. length (filter (in_bin L i) xs)) [0..<L]"

text \<open>
  \<open>hist /= hist.sum()\<close> on the counts as floats (exact, the counts being below \<open>2 ^ 53\<close>):
  a zero sum means that every count is zero.
\<close>

definition np_divide :: "nat \<Rightarrow> nat \<Rightarrow> npfloat" where
  "np_divide c s = (if s = 0 then NaN else Finite (binary64 (of_nat c / of_nat s)))"

definition centerize_histogram :: "clustering \<Rightarrow> npfloat list" where
  "centerize_histogram clt =
     (let num_labels = length (remdups (labels clt));
          hist = np_histogram (labels clt) num_labels
      in map (\<lambda>c. np_divide c (sum_list hist)) hist)"

subsection \<open>\<open>extract_colors\<close>\<close>

text \<open>Lines 122 and 123, on \<open>len(unique_colors)\<close>; \<open>//\<close> is the floor division.\<close>

definition clusters_num :: "int \<Rightarrow> int" where
  "clusters_num u =
     (let n = 5 + u div 6
      in if n < 2 then 5 else if n > 24 then 24 else n)"

text \<open>
  \<open>np.unique(image, axis=0)\<close> on the array of shape \<open>(height, width, 3)\<close> keeps one copy of
  every distinct element along the first axis: of every distinct row.  Its length is
  the number of distinct rows of the image.
\<close>

definition unique_colors :: "image \<Rightarrow> pixel list list" where
  "unique_colors img = remdups img"

text \<open>The \<open>n_clusters\<close> that \<open>extract_colors\<close> passes to \<open>KMeans\<close>.\<close>

definition requested_clusters :: "image \<Rightarrow> int" where
  "requested_clusters img = clusters_num (int (length (unique_colors img)))"

text \<open>\<open>int(c)\<close> on a float truncates toward zero.\<close>

definition py_int :: "rat \<Rightarrow> int" where
  "py_int q = (if 0 \<le> q then \<lfloor>q\<rfloor> else \<lceil>q\<rceil>)"

definition int_color :: "rat \<times> rat \<times> rat \<Rightarrow> color" where
  "int_color center = (case center of (x, y, z) \<Rightarrow> (py_int x, py_int y, py_int z))"

text \<open>
  \<open>extract_colors\<close>, with the library call \<open>KMeans(n_clusters=k).fit(image_2d)\<close> as the
  parameter \<open>fit\<close>: it returns the fitted clustering or raises.  \<open>image.reshape\<close> lists the
  pixels row after row.
\<close>

definition extract_colors ::
  "(int \<Rightarrow> pixel list \<Rightarrow> exn + clustering) \<Rightarrow> image \<Rightarrow> exn + color list" where
  "extract_colors fit img =
     (let image_2d = concat img
      in case fit (requested_clusters img) image_2d of
           Inl e \<Rightarrow> Inl e
         | Inr clt \<Rightarrow>
             (let hist = centerize_histogram clt;
                  color_histogram =
                    map (\<lambda>color. int_color (snd color)) (zip hist (cluster_centers clt))
              in sort_colors color_histogram))"

subsection \<open>The specification's words\<close>

text \<open>
  The cluster count of the specification: \<open>clamp(5 + U // 6, 5, 24)\<close> with \<open>U\<close> the number
  of distinct pixel colours of the image.
\<close>

definition spec_clusters :: "image \<Rightarrow> int" where
  "spec_clusters img =
     max 5 (min 24 (5 + int (length (remdups (concat img))) div 6))"

text \<open>The rounding of the specification: to the nearest integer.\<close>

definition spec_round_color :: "rat \<times> rat \<times> rat \<Rightarrow> color" where
  "spec_round_color center = (case center of (x, y, z) \<Rightarrow> (round x, round y, round z))"

text \<open>
  The error kinds of the specification.  The source defines none: whatever it raises is
  an exception of Python or of a library.
\<close>

datatype spec_error_kind = InvalidInput | ClusteringFailed | Unclassified

subsection \<open>Concrete inputs\<close>

text \<open>
  A \<open>2 \<times> 3\<close> image of one colour, and what \<open>KMeans(n_clusters=5)\<close> returns for it: five
  centres and every pixel in cluster 0 (scikit-learn warns that it found 1 distinct
  cluster, fewer than \<open>n_clusters\<close>, and returns).
\<close>

definition solid_image :: image where
  "solid_image = [[(200, 100, 50), (200, 100, 50), (200, 100, 50)],
                  [(200, 100, 50), (200, 100, 50), (200, 100, 50)]]"

definition solid_clustering :: clustering where
  "solid_clustering =
     \<lparr>cluster_centers = replicate 5 (200, 100, 50), labels = replicate 6 0\<rparr>"

text \<open>An image of one row of twelve colours, and the same pixels as twelve rows of one.\<close>

definition wide_image :: image where
  "wide_image = [map (\<lambda>i. (i, 0, 0)) [0..11]]"

definition tall_image :: image where
  "tall_image = map (\<lambda>i. [(i, 0, 0)]) [0..11]"

definition solid_fit :: "int \<Rightarrow> pixel list \<Rightarrow> exn + clustering" where
  "solid_fit k image_2d = Inr solid_clustering"

text \<open>
  One row of eight pixels in five groups, and their clustering: the first four pixels
  form cluster 0, whose centre is their mean.
\<close>

definition mixed_image :: image where
  "mixed_image = [[(2, 0, 0), (3, 0, 0), (3, 0, 0), (3, 0, 0),
                   (250, 0, 0), (0, 250, 0), (0, 100, 0), (0, 0, 250)]]"

definition mixed_clustering :: clustering where
  "mixed_clustering =
     \<lparr>cluster_centers = [(11 / 4, 0, 0), (250, 0, 0), (0, 250, 0), (0, 100, 0),
                          (0, 0, 250)],
      labels = [0, 0, 0, 0, 1, 2, 3, 4]\<rparr>"

definition mixed_fit :: "int \<Rightarrow> pixel list \<Rightarrow> exn + clustering" where
  "mixed_fit k image_2d = Inr mixed_clustering"

text \<open>
  One row of six pixels, three red and three blue, and a clustering of it that uses the
  clusters 0 and 2 of its five.
\<close>

definition gap_image :: image where
  "gap_image = [[(255, 0, 0), (255, 0, 0), (255, 0, 0), (0, 0, 255), (0, 0, 255), (0, 0, 255)]]"

definition gap_clustering :: clustering where
  "gap_clustering =
     \<lparr>cluster_centers = [(255, 0, 0), (255, 0, 0), (0, 0, 255), (0, 0, 255), (0, 0, 255)],
      labels = [0, 0, 0, 2, 2, 2]\<rparr>"

definition gap_fit :: "int \<Rightarrow> pixel list \<Rightarrow> exn + clustering" where
  "gap_fit k image_2d = Inr gap_clustering"

text \<open>
  One row of eight pixels in five groups, the first of four greens, and their clustering
  in five clusters, each with the mean of its pixels as centre.
\<close>

definition uneven_image :: image where
  "uneven_image = [[(0, 200, 0), (0, 201, 0), (0, 201, 0), (0, 201, 0),
                    (250, 0, 0), (0, 0, 250), (100, 0, 0), (0, 0, 100)]]"

definition uneven_clustering :: clustering where
  "uneven_clustering =
     \<lparr>cluster_centers = [(0, 803 / 4, 0), (250, 0, 0), (0, 0, 250), (100, 0, 0),
                          (0, 0, 100)],
      labels = [0, 0, 0, 0, 1, 2, 3, 4]\<rparr>"

definition uneven_fit :: "int \<Rightarrow> pixel list \<Rightarrow> exn + clustering" where
  "uneven_fit k image_2d = Inr uneven_clustering"

text \<open>Four colours: a blue, two reds (the second with a tie of red and green), a green.\<close>

definition example_colors :: "color list" where
  "example_colors = [(0, 0, 255), (200, 100, 50), (90, 90, 10), (10, 20, 5)]"

text \<open>
  A call of the clusterer that raises.  scikit-learn raises \<open>ValueError\<close> for an array
  with no sample and for one with fewer samples than \<open>n_clusters\<close>.
\<close>

definition failing_fit :: "int \<Rightarrow> pixel list \<Rightarrow> exn + clustering" where
  "failing_fit k image_2d = Inl (LibraryError ''ValueError'')"

section \<open>Properties\<close>

subsection \<open>Evaluation\<close>

lemma float_overflow_numeral [code]:
  "float_overflow = 179769313486231590772930519078902473361797697894230657273430081157732675805500963132708477322407536021120113879871393357658789768814416622492847430639474124377767893424865485276302219601246094119453082952085005768838150682342462881473913110540827237163350510684586298239947245938479716304835356329624224137216"
  by (simp add: float_overflow_def)

subsection \<open>Sorting with keys\<close>

lemma luminance_convertible:
  "convertible c \<Longrightarrow> luminance c = Inr (luminance_value c)"
  by (cases c) (simp add: convertible_def luminance_def luminance_value_def float_of_int_def)

lemma luminance_not_convertible:
  "\<not> convertible c \<Longrightarrow> luminance c = Inl OverflowError"
  by (cases c) (auto simp: convertible_def luminance_def float_of_int_def)

lemma keyed_total:
  "\<forall>x\<in>set xs. key x = Inr (k x) \<Longrightarrow> keyed key xs = Inr (map (\<lambda>x. (k x, x)) xs)"
  by (induction xs) simp_all

lemma insort_key_decorated:
  "map snd (insort_key fst (k x, x) (map (\<lambda>y. (k y, y)) ys)) = insort_key k x (map snd (map (\<lambda>y. (k y, y)) ys))"
  by (induction ys) simp_all

lemma sort_key_decorated_aux:
  "sort_key fst (map (\<lambda>y. (k y, y)) xs) = map (\<lambda>y. (k y, y)) (sort_key k xs)"
proof (induction xs)
  case Nil
  show ?case by simp
next
  case (Cons x xs)
  have "insort_key fst (k x, x) (map (\<lambda>y. (k y, y)) zs) = map (\<lambda>y. (k y, y)) (insort_key k x zs)"
    for zs by (induction zs) simp_all
  with Cons show ?case by simp
qed

lemma sort_key_decorated:
  "map snd (sort_key fst (map (\<lambda>y. (k y, y)) xs)) = sort_key k xs"
  by (simp add: sort_key_decorated_aux comp_def)

lemma sorted_py_total:
  assumes "\<forall>x\<in>set xs. key x = Inr (k x)"
  shows "sorted_py key xs = Inr (sort_key k xs)"
proof -
  have "keyed key xs = Inr (map (\<lambda>x. (k x, x)) xs)"
    using assms by (rule keyed_total)
  then show ?thesis
    by (simp add: sorted_py_def sort_key_decorated)
qed

lemma sorted_py_luminance:
  "\<forall>c\<in>set xs. convertible c \<Longrightarrow> sorted_py luminance xs = Inr (sort_key luminance_value xs)"
  by (rule sorted_py_total) (simp add: luminance_convertible)

subsection \<open>The loop of \<open>sort_colors\<close> is a partition by the three conditions\<close>

lemma classify_cases:
  "classify bs c =
     (if red_max c then bs\<lparr>reds := reds bs @ [c]\<rparr>
      else if green_max c then bs\<lparr>greens := greens bs @ [c]\<rparr>
      else bs\<lparr>blues := blues bs @ [c]\<rparr>)"
  by (cases c) (auto simp: classify_def red_max_def green_max_def Let_def max_def)

lemma max_exclusive:
  "green_max c \<Longrightarrow> \<not> red_max c"
  "blue_max c \<Longrightarrow> \<not> red_max c"
  "blue_max c \<Longrightarrow> \<not> green_max c"
  by (cases c; simp add: red_max_def green_max_def blue_max_def)+

lemma max_exhaustive:
  "\<not> red_max c \<Longrightarrow> \<not> green_max c \<Longrightarrow> blue_max c"
  by (cases c) (simp add: red_max_def green_max_def blue_max_def, linarith)

lemma foldl_classify:
  "foldl classify bs l =
     \<lparr>reds = reds bs @ filter red_max l,
      greens = greens bs @ filter green_max l,
      blues = blues bs @ filter blue_max l,
      rests = rests bs\<rparr>"
proof (induction l arbitrary: bs)
  case Nil
  show ?case by simp
next
  case (Cons c l)
  have step: "foldl classify bs (c # l) =
     \<lparr>reds = reds (classify bs c) @ filter red_max l,
      greens = greens (classify bs c) @ filter green_max l,
      blues = blues (classify bs c) @ filter blue_max l,
      rests = rests (classify bs c)\<rparr>"
    using Cons.IH [of "classify bs c"] by simp
  consider (r) "red_max c" | (g) "\<not> red_max c" "green_max c"
    | (b) "\<not> red_max c" "\<not> green_max c" "blue_max c"
    using max_exhaustive by blast
  then show ?case
  proof cases
    case r
    then have "\<not> green_max c" "\<not> blue_max c"
      using max_exclusive by blast+
    moreover have "classify bs c = bs\<lparr>reds := reds bs @ [c]\<rparr>"
      using r by (simp add: classify_cases)
    ultimately show ?thesis
      unfolding step using r by simp
  next
    case g
    then have "\<not> blue_max c"
      using max_exclusive by blast
    moreover have "classify bs c = bs\<lparr>greens := greens bs @ [c]\<rparr>"
      using g by (simp add: classify_cases)
    ultimately show ?thesis
      unfolding step using g by simp
  next
    case b
    then have "classify bs c = bs\<lparr>blues := blues bs @ [c]\<rparr>"
      by (simp add: classify_cases)
    then show ?thesis
      unfolding step using b by simp
  qed
qed

lemma partition_colors:
  "foldl classify empty_buckets l =
     \<lparr>reds = filter red_max l, greens = filter green_max l,
      blues = filter blue_max l, rests = []\<rparr>"
  by (simp add: foldl_classify empty_buckets_def)

lemma sort_colors_convertible:
  assumes "\<forall>c\<in>set l. convertible c"
  shows "sort_colors l =
     Inr (sort_key luminance_value (filter red_max l) @
          sort_key luminance_value (filter green_max l) @
          sort_key luminance_value (filter blue_max l) @ [])"
proof -
  have "sorted_py luminance (filter P l) = Inr (sort_key luminance_value (filter P l))" for P
    using assms by (intro sorted_py_luminance) simp
  moreover have "sorted_py luminance ([] :: color list) = Inr []"
    by (simp add: sorted_py_def)
  ultimately show ?thesis
    by (simp add: sort_colors_def partition_colors)
qed

lemma mset_partition:
  "mset (filter red_max l) + mset (filter green_max l) + mset (filter blue_max l) = mset l"
proof (induction l)
  case Nil
  show ?case by simp
next
  case (Cons c l)
  consider (r) "red_max c" "\<not> green_max c" "\<not> blue_max c"
    | (g) "\<not> red_max c" "green_max c" "\<not> blue_max c"
    | (b) "\<not> red_max c" "\<not> green_max c" "blue_max c"
    using max_exhaustive max_exclusive by blast
  then show ?case
    using Cons.IH by cases simp_all
qed

lemma red_max_bounds: "red_max (r, g, b) \<Longrightarrow> g \<le> r \<and> b \<le> r"
  by (simp add: red_max_def) linarith

lemma green_max_bounds: "green_max (r, g, b) \<Longrightarrow> b \<le> g \<and> r < g"
  by (simp add: green_max_def) linarith

lemma blue_max_bounds: "blue_max (r, g, b) \<Longrightarrow> r < b \<and> g < b"
  by (simp add: blue_max_def) linarith

lemma example_colors_convertible: "\<forall>c\<in>set example_colors. convertible c"
  by code_simp

subsection \<open>The order of the palette\<close>

text \<open>
  Claim C1.  For a list of colours whose channels Python can convert to float (every
  channel of an RGB triple is), \<open>sort_colors\<close> returns the concatenation of the red, the
  green and the blue bucket and of the bucket \<open>rests\<close>, which is empty.  A colour is in the
  red bucket when its red channel equals the maximum of the three channels, in the green
  one when its red channel does not and its green channel does, in the blue one
  otherwise; each bucket is a permutation of the input colours of its kind, so the
  output is a permutation of the input and has its length.  In the red segment
  \<open>R \<ge> G\<close> and \<open>R \<ge> B\<close>, in the green segment \<open>G \<ge> B\<close> and \<open>G > R\<close>, in the blue segment
  \<open>B > R\<close> and \<open>B > G\<close>.
\<close>

theorem sort_colors_partition:
  assumes "\<forall>c\<in>set l. convertible c"
  shows "\<exists>rs gs bl.
     sort_colors l = Inr (rs @ gs @ bl @ rests (foldl classify empty_buckets l)) \<and>
     rests (foldl classify empty_buckets l) = [] \<and>
     mset rs = mset (filter red_max l) \<and>
     mset gs = mset (filter green_max l) \<and>
     mset bl = mset (filter blue_max l) \<and>
     mset (rs @ gs @ bl) = mset l \<and>
     length (rs @ gs @ bl) = length l \<and>
     (\<forall>(r, g, b)\<in>set rs. g \<le> r \<and> b \<le> r) \<and>
     (\<forall>(r, g, b)\<in>set gs. b \<le> g \<and> r < g) \<and>
     (\<forall>(r, g, b)\<in>set bl. r < b \<and> g < b)"
proof -
  let ?rs = "sort_key luminance_value (filter red_max l)"
  let ?gs = "sort_key luminance_value (filter green_max l)"
  let ?bl = "sort_key luminance_value (filter blue_max l)"
  have out: "sort_colors l = Inr (?rs @ ?gs @ ?bl @ rests (foldl classify empty_buckets l))"
    using sort_colors_convertible [OF assms] by (simp add: partition_colors)
  have rest: "rests (foldl classify empty_buckets l) = []"
    by (simp add: partition_colors)
  have perm: "mset (?rs @ ?gs @ ?bl) = mset l"
    using mset_partition [of l] by (simp add: ac_simps)
  have len: "length (?rs @ ?gs @ ?bl) = length l"
    using perm by (rule mset_eq_length)
  have r: "\<forall>(r, g, b)\<in>set ?rs. g \<le> r \<and> b \<le> r"
    using red_max_bounds by auto
  have g: "\<forall>(r, g, b)\<in>set ?gs. b \<le> g \<and> r < g"
    using green_max_bounds by auto
  have b: "\<forall>(r, g, b)\<in>set ?bl. r < b \<and> g < b"
    using blue_max_bounds by auto
  show ?thesis
    apply (rule exI [of _ ?rs])
    apply (rule exI [of _ ?gs])
    apply (rule exI [of _ ?bl])
    apply (intro conjI)
    using out rest perm len r g b by simp_all
qed

theorem sort_colors_partition_witness:
  "list_all convertible example_colors \<and>
   (\<exists>rs gs bl.
     sort_colors example_colors =
       Inr (rs @ gs @ bl @ rests (foldl classify empty_buckets example_colors)) \<and>
     rests (foldl classify empty_buckets example_colors) = [] \<and>
     mset rs = mset (filter red_max example_colors) \<and>
     mset gs = mset (filter green_max example_colors) \<and>
     mset bl = mset (filter blue_max example_colors) \<and>
     mset (rs @ gs @ bl) = mset example_colors \<and>
     length (rs @ gs @ bl) = length example_colors \<and>
     (\<forall>(r, g, b)\<in>set rs. g \<le> r \<and> b \<le> r) \<and>
     (\<forall>(r, g, b)\<in>set gs. b \<le> g \<and> r < g) \<and>
     (\<forall>(r, g, b)\<in>set bl. r < b \<and> g < b))"
proof -
  have "list_all convertible example_colors"
    using example_colors_convertible by (simp only: list_all_iff)
  from this sort_colors_partition [OF example_colors_convertible]
  show ?thesis by (rule conjI)
qed

lemma filter_sorted_bucket:
  "filter P (sort_key f (filter P xs)) = sort_key f (filter P xs)"
  by (simp add: filter_id_conv)

lemma filter_other_bucket:
  assumes "\<And>x. Q x \<Longrightarrow> \<not> P x"
  shows "filter P (sort_key f (filter Q xs)) = []"
  using assms by (simp add: filter_empty_conv)

lemma sort_key_twice: "sort_key f (sort_key f xs) = sort_key f xs"
  by (rule sort_key_id_if_sorted) (rule sorted_sort_key)

text \<open>
  Claim C7.  Sorting a sorted palette again changes nothing: for a list of colours whose
  channels Python can convert to float, \<open>sort_colors\<close> returns a list on which
  \<open>sort_colors\<close> returns the same list.
\<close>

theorem sort_colors_idempotent:
  assumes "\<forall>c\<in>set l. convertible c"
  shows "\<exists>out. sort_colors l = Inr out \<and> sort_colors out = Inr out"
proof -
  let ?rs = "sort_key luminance_value (filter red_max l)"
  let ?gs = "sort_key luminance_value (filter green_max l)"
  let ?bl = "sort_key luminance_value (filter blue_max l)"
  let ?out = "?rs @ ?gs @ ?bl"
  have out: "sort_colors l = Inr ?out"
    using sort_colors_convertible [OF assms] by simp
  have conv: "\<forall>c\<in>set ?out. convertible c"
    using assms by auto
  have cross: "filter green_max ?rs = []" "filter blue_max ?rs = []"
    "filter red_max ?gs = []" "filter blue_max ?gs = []"
    "filter red_max ?bl = []" "filter green_max ?bl = []"
    by (rule filter_other_bucket, use max_exclusive in blast)+
  have red: "filter red_max ?out = ?rs"
    by (simp add: filter_sorted_bucket cross)
  have green: "filter green_max ?out = ?gs"
    by (simp add: filter_sorted_bucket cross)
  have blue: "filter blue_max ?out = ?bl"
    by (simp add: filter_sorted_bucket cross)
  have "sort_colors ?out = Inr ?out"
    using sort_colors_convertible [OF conv]
    by (simp only: red green blue sort_key_twice append_Nil2)
  with out show ?thesis by blast
qed

theorem sort_colors_idempotent_witness:
  "list_all convertible example_colors \<and>
   (\<exists>out. sort_colors example_colors = Inr out \<and> sort_colors out = Inr out)"
proof -
  have "list_all convertible example_colors"
    using example_colors_convertible by (simp only: list_all_iff)
  from this sort_colors_idempotent [OF example_colors_convertible]
  show ?thesis by (rule conjI)
qed

subsection \<open>The rounding error of the luminance\<close>

text \<open>
  The key of the sort is the float that \<open>luminance\<close> computes.  Each of its five
  operations rounds, and for channels from 0 to 255 the key is within \<open>2 ^ - 42\<close> of the
  number \<open>0.299 R + 0.587 G + 0.114 B\<close>; two such numbers that differ, differ by \<open>0.001\<close>
  at least, so the order of the keys is an order of the numbers.
\<close>

lemma rne_error: "\<bar>of_int (rne x) - x\<bar> \<le> 1 / 2"
proof -
  define f where "f = \<lfloor>x\<rfloor>"
  have "of_int f \<le> x" "x < of_int f + 1"
    unfolding f_def by linarith+
  then show ?thesis
    unfolding rne_def Let_def f_def [symmetric] by (auto simp: abs_if)
qed

lemma pow2_powi: "pow2 k = 2 powi k"
  by (simp add: pow2_def power_int_def power_one_over inverse_eq_divide)

lemma pow2_pos: "0 < pow2 k"
  by (simp add: pow2_powi)

lemma ilog2_le:
  assumes "0 < q"
  shows "pow2 (ilog2 q) \<le> q"
proof -
  obtain a b where ab: "quotient_of q = (a, b)" by (cases "quotient_of q")
  then have b: "0 < b" and q: "q = of_int a / of_int b"
    using quotient_of_denom_pos quotient_of_div by auto
  from assms b q have a: "0 < a"
    by (simp add: zero_less_divide_iff)
  from bitlen_bounds [OF a] have la: "(2::rat) ^ nat (bitlen a - 1) \<le> of_int a"
    by (metis of_int_le_iff of_int_numeral of_int_power)
  from bitlen_bounds [OF b] have lb: "of_int b < (2::rat) ^ nat (bitlen b)"
    by (metis of_int_less_iff of_int_numeral of_int_power)
  have pa: "1 \<le> bitlen a" using a bitlen_bounds [OF a]
    by (smt (verit) bitlen_def bitlen_nonneg bitlen_eq_zero_iff)
  have pb: "0 \<le> bitlen b" by (rule bitlen_nonneg)
  have la': "(2::rat) powi (bitlen a - 1) \<le> of_int a"
    using la pa by (simp add: power_int_def)
  have lb': "of_int b < (2::rat) powi bitlen b"
    using lb pb by (simp add: power_int_def)
  have "(2::rat) powi (bitlen a - bitlen b - 1) = 2 powi (bitlen a - 1) / 2 powi bitlen b"
    by (simp add: power_int_diff)
  also have "\<dots> \<le> of_int a / 2 powi bitlen b"
    using la' by (simp add: divide_right_mono)
  also have "\<dots> \<le> of_int a / of_int b"
    using lb' a b by (simp add: frac_le)
  finally have low: "pow2 (bitlen a - bitlen b - 1) \<le> q"
    by (simp add: pow2_powi q)
  show ?thesis
    unfolding ilog2_def ab using low by (simp add: Let_def)
qed

lemma ilog2_less:
  assumes "0 < q" and "q < 2 ^ n"
  shows "ilog2 q < int n"
proof (rule ccontr)
  assume "\<not> ilog2 q < int n"
  then have "int n \<le> ilog2 q" by simp
  then have "(2::rat) powi int n \<le> 2 powi ilog2 q"
    by (intro power_int_increasing) simp_all
  then have "2 ^ n \<le> pow2 (ilog2 q)"
    by (simp add: pow2_powi)
  with ilog2_le [OF assms(1)] assms(2) show False by simp
qed

lemma fl_error:
  assumes "\<bar>q\<bar> < 2 ^ n"
  shows "\<bar>fl q - q\<bar> \<le> pow2 (int n - 53) / 2"
proof (cases "q = 0")
  case True
  then show ?thesis using pow2_pos [of "int n - 53"] by (simp add: fl_def)
next
  case False
  define e where "e = ilog2 \<bar>q\<bar> - 52"
  have "ilog2 \<bar>q\<bar> < int n"
    using False assms by (intro ilog2_less) simp_all
  then have "e \<le> int n - 53" by (simp add: e_def)
  then have pe: "pow2 e \<le> pow2 (int n - 53)"
    unfolding pow2_powi by (intro power_int_increasing) simp_all
  have "fl q - q = (of_int (rne (q / pow2 e)) - q / pow2 e) * pow2 e"
    using False pow2_pos [of e] by (simp add: fl_def e_def Let_def field_simps)
  then have "\<bar>fl q - q\<bar> = \<bar>of_int (rne (q / pow2 e)) - q / pow2 e\<bar> * pow2 e"
    using pow2_pos [of e] by (simp add: abs_mult)
  also have "\<dots> \<le> 1 / 2 * pow2 e"
    using rne_error [of "q / pow2 e"] pow2_pos [of e] by (intro mult_right_mono) simp_all
  also have "\<dots> \<le> 1 / 2 * pow2 (int n - 53)"
    using pe by simp
  finally show ?thesis by simp
qed

lemma fl_bytes: "list_all (\<lambda>r. fl (of_int r) = of_int r) [0..255]"
  by code_simp

lemma fl_byte:
  assumes "0 \<le> r" and "r \<le> 255"
  shows "fl (of_int r) = of_int r"
  using fl_bytes assms by (simp add: list_all_iff)

lemma binary64_small:
  assumes "\<bar>q\<bar> < 512"
  shows "binary64 q = fl q" and "\<bar>fl q - q\<bar> \<le> 1 / 2 ^ 45"
proof -
  have "\<bar>q\<bar> < 2 ^ 9" using assms by simp
  from fl_error [OF this] show e: "\<bar>fl q - q\<bar> \<le> 1 / 2 ^ 45"
    by (simp add: pow2_def)
  have "(513::rat) < float_overflow"
    by (simp add: float_overflow_def)
  with e assms have "\<bar>fl q\<bar> < float_overflow"
    by (simp add: abs_if split: if_splits)
  then show "binary64 q = fl q"
    by (simp add: binary64_def Let_def abs_if split: if_splits)
qed

lemma fl_weight:
  assumes "0 \<le> w" and "w < 1"
  shows "\<bar>fl w - w\<bar> \<le> 1 / 2 ^ 54"
proof -
  have "\<bar>w\<bar> < 2 ^ 0" using assms by simp
  from fl_error [OF this] show ?thesis
    by (simp add: pow2_def)
qed

lemma fmul_weight:
  assumes "0 \<le> w" and "w < 1" and "0 \<le> x" and "x \<le> 255"
  shows "\<bar>fmul (fl w) x - w * x\<bar> \<le> 1 / 2 ^ 44"
proof -
  have "\<bar>fl w * x - w * x\<bar> = \<bar>fl w - w\<bar> * x"
    using assms(3) by (simp add: abs_mult left_diff_distrib [symmetric])
  also have "\<dots> \<le> 1 / 2 ^ 54 * 255"
    using fl_weight [OF assms(1,2)] assms(3,4) by (intro mult_mono) simp_all
  finally have d: "\<bar>fl w * x - w * x\<bar> \<le> 255 / 2 ^ 54"
    by simp
  have "w * x \<le> 1 * 255"
    using assms by (intro mult_mono) simp_all
  moreover have "0 \<le> w * x"
    using assms by simp
  ultimately have "\<bar>fl w * x\<bar> < 512"
    using d by (simp add: abs_if split: if_splits)
  from binary64_small [OF this] d show ?thesis
    by (simp add: fmul_def abs_if split: if_splits)
qed

lemma fadd_small:
  assumes "\<bar>a + b\<bar> < 512"
  shows "\<bar>fadd a b - (a + b)\<bar> \<le> 1 / 2 ^ 45"
  using binary64_small [OF assms] by (simp add: fadd_def)

lemma luminance_value_error:
  assumes "rgb8 c"
  shows "\<bar>luminance_value c - spec_luminance c\<bar> \<le> 1 / 2 ^ 42"
proof -
  obtain r g b where c: "c = (r, g, b)" by (cases c)
  from assms c have bounds: "0 \<le> r" "r \<le> 255" "0 \<le> g" "g \<le> 255" "0 \<le> b" "b \<le> 255"
    by (simp_all add: rgb8_def)
  define R G B :: rat where "R = of_int r" and "G = of_int g" and "B = of_int b"
  have rb: "0 \<le> R" "R \<le> 255" "0 \<le> G" "G \<le> 255" "0 \<le> B" "B \<le> 255"
    using bounds by (simp_all add: R_def G_def B_def)
  define p1 p2 p3 where "p1 = fmul (fl (299 / 1000)) R"
    and "p2 = fmul (fl (587 / 1000)) G" and "p3 = fmul (fl (114 / 1000)) B"
  have e1: "\<bar>p1 - 299 / 1000 * R\<bar> \<le> 1 / 2 ^ 44"
    unfolding p1_def using rb by (intro fmul_weight) simp_all
  have e2: "\<bar>p2 - 587 / 1000 * G\<bar> \<le> 1 / 2 ^ 44"
    unfolding p2_def using rb by (intro fmul_weight) simp_all
  have e3: "\<bar>p3 - 114 / 1000 * B\<bar> \<le> 1 / 2 ^ 44"
    unfolding p3_def using rb by (intro fmul_weight) simp_all
  have "\<bar>p1 + p2\<bar> < 512"
    using e1 e2 rb by (simp add: abs_if split: if_splits)
  from fadd_small [OF this] have e4: "\<bar>fadd p1 p2 - (p1 + p2)\<bar> \<le> 1 / 2 ^ 45" .
  have "\<bar>fadd p1 p2 + p3\<bar> < 512"
    using e1 e2 e3 e4 rb by (simp add: abs_if split: if_splits)
  from fadd_small [OF this]
  have e5: "\<bar>fadd (fadd p1 p2) p3 - (fadd p1 p2 + p3)\<bar> \<le> 1 / 2 ^ 45" .
  have "\<bar>fadd (fadd p1 p2) p3 - (299 / 1000 * R + 587 / 1000 * G + 114 / 1000 * B)\<bar>
      \<le> 1 / 2 ^ 42"
    using e1 e2 e3 e4 e5 by (simp add: abs_if split: if_splits)
  moreover have "luminance_value c = fadd (fadd p1 p2) p3"
    using bounds by (simp add: c luminance_value_def fl_byte p1_def p2_def p3_def R_def G_def B_def)
  moreover have "spec_luminance c = 299 / 1000 * R + 587 / 1000 * G + 114 / 1000 * B"
    by (simp add: c spec_luminance_def R_def G_def B_def)
  ultimately show ?thesis by simp
qed

lemma sorted_within:
  assumes "sorted (map luminance_value xs)" and "\<forall>c\<in>set xs. rgb8 c"
    and "i < j" and "j < length xs"
  shows "spec_luminance (xs ! i) \<le> spec_luminance (xs ! j) + 1 / 2 ^ 41"
proof -
  have "luminance_value (xs ! i) \<le> luminance_value (xs ! j)"
    using assms(1,3,4) sorted_nth_mono [of "map luminance_value xs" i j] by simp
  moreover have "\<bar>luminance_value (xs ! i) - spec_luminance (xs ! i)\<bar> \<le> 1 / 2 ^ 42"
    using assms(2,3,4) by (intro luminance_value_error) simp
  moreover have "\<bar>luminance_value (xs ! j) - spec_luminance (xs ! j)\<bar> \<le> 1 / 2 ^ 42"
    using assms(2,4) by (intro luminance_value_error) simp
  ultimately show ?thesis
    by (simp add: abs_if split: if_splits)
qed

lemma rgb8_representable:
  assumes "0 \<le> r" and "r \<le> 255"
  shows "representable r"
proof -
  have "(255::rat) < float_overflow"
    by (simp add: float_overflow_def)
  moreover have "\<bar>rat_of_int r\<bar> \<le> 255"
    using assms by simp
  ultimately show ?thesis
    using assms by (simp add: representable_def fl_byte)
qed

lemma spec_luminance_order:
  assumes "rgb8 a" and "rgb8 b" and "luminance_value a \<le> luminance_value b"
  shows "spec_luminance a \<le> spec_luminance b"
proof (rule ccontr)
  assume n: "\<not> spec_luminance a \<le> spec_luminance b"
  obtain r g b' where a: "a = (r, g, b')" by (cases a)
  obtain r2 g2 b2 where b: "b = (r2, g2, b2)" by (cases b)
  define na nb where "na = 299 * r + 587 * g + 114 * b'"
    and "nb = 299 * r2 + 587 * g2 + 114 * b2"
  have sa: "spec_luminance a = of_int na / 1000"
    by (simp add: a spec_luminance_def na_def)
  have sb: "spec_luminance b = of_int nb / 1000"
    by (simp add: b spec_luminance_def nb_def)
  from n have "nb < na"
    by (simp add: sa sb)
  then have "nb + 1 \<le> na" by simp
  then have "rat_of_int nb + 1 \<le> of_int na"
    by (metis of_int_1 of_int_add of_int_le_iff)
  then have gap: "spec_luminance b + 1 / 1000 \<le> spec_luminance a"
    by (simp add: sa sb)
  from luminance_value_error [OF assms(1)] luminance_value_error [OF assms(2)] assms(3) gap
  show False
    by (simp add: abs_if split: if_splits)
qed

lemma sorted_spec_luminance:
  assumes "sorted (map luminance_value xs)" and "\<forall>c\<in>set xs. rgb8 c"
  shows "sorted (map spec_luminance xs)"
proof -
  have "sorted_wrt (\<lambda>x y. luminance_value x \<le> luminance_value y) xs"
    using assms(1) by (simp add: sorted_map)
  then have "sorted_wrt (\<lambda>x y. spec_luminance x \<le> spec_luminance y) xs"
    by (rule sorted_wrt_mono_rel [rotated]) (use assms(2) in \<open>auto intro: spec_luminance_order\<close>)
  then show ?thesis
    by (simp add: sorted_map)
qed

lemma rgb8_convertible: "rgb8 c \<Longrightarrow> convertible c"
  by (cases c) (simp add: rgb8_def convertible_def rgb8_representable)

lemma example_colors_rgb8: "\<forall>c\<in>set example_colors. rgb8 c"
  by (simp add: example_colors_def rgb8_def)

text \<open>
  Claim C2, as the code has it.  Within each bucket of the output of \<open>sort_colors\<close> the
  colours are in non-decreasing order of the key that \<open>luminance\<close> computes,
  \<open>0.299 R + 0.587 G + 0.114 B\<close> in the floating-point arithmetic of Python, and the sort
  is stable on that key: the colours of a bucket that have one and the same key are in the
  order they have in the input.  For channels from 0 to 255 the key is within
  \<open>2 ^ - 42\<close> of the number \<open>0.299 R + 0.587 G + 0.114 B\<close>, and the colours of each bucket
  are in non-decreasing order of that number too.
\<close>

theorem sort_colors_luminance_order:
  assumes "\<forall>c\<in>set l. convertible c"
  shows "\<exists>rs gs bl.
     sort_colors l = Inr (rs @ gs @ bl) \<and>
     (\<forall>c\<in>set l. luminance c = Inr (luminance_value c)) \<and>
     mset rs = mset (filter red_max l) \<and>
     mset gs = mset (filter green_max l) \<and>
     mset bl = mset (filter blue_max l) \<and>
     sorted (map luminance_value rs) \<and>
     sorted (map luminance_value gs) \<and>
     sorted (map luminance_value bl) \<and>
     (\<forall>k. filter (\<lambda>c. luminance_value c = k) rs =
          filter (\<lambda>c. luminance_value c = k) (filter red_max l)) \<and>
     (\<forall>k. filter (\<lambda>c. luminance_value c = k) gs =
          filter (\<lambda>c. luminance_value c = k) (filter green_max l)) \<and>
     (\<forall>k. filter (\<lambda>c. luminance_value c = k) bl =
          filter (\<lambda>c. luminance_value c = k) (filter blue_max l)) \<and>
     (\<forall>c\<in>set l. rgb8 c \<longrightarrow> \<bar>luminance_value c - spec_luminance c\<bar> \<le> 1 / 2 ^ 42) \<and>
     ((\<forall>c\<in>set l. rgb8 c) \<longrightarrow>
        sorted (map spec_luminance rs) \<and>
        sorted (map spec_luminance gs) \<and>
        sorted (map spec_luminance bl))"
proof -
  let ?rs = "sort_key luminance_value (filter red_max l)"
  let ?gs = "sort_key luminance_value (filter green_max l)"
  let ?bl = "sort_key luminance_value (filter blue_max l)"
  have out: "sort_colors l = Inr (?rs @ ?gs @ ?bl)"
    using sort_colors_convertible [OF assms] by simp
  have key: "\<forall>c\<in>set l. luminance c = Inr (luminance_value c)"
    using assms by (simp add: luminance_convertible)
  have stable: "filter (\<lambda>c. luminance_value c = k) (sort_key luminance_value xs) =
      filter (\<lambda>c. luminance_value c = k) xs" for k and xs :: "color list"
    by (rule sort_key_stable)
  have err: "\<forall>c\<in>set l. rgb8 c \<longrightarrow> \<bar>luminance_value c - spec_luminance c\<bar> \<le> 1 / 2 ^ 42"
    using luminance_value_error by blast
  have exact: "sorted (map spec_luminance (sort_key luminance_value (filter P l)))"
    if "\<forall>c\<in>set l. rgb8 c" for P
    using that by (intro sorted_spec_luminance) simp_all
  show ?thesis
    apply (rule exI [of _ ?rs])
    apply (rule exI [of _ ?gs])
    apply (rule exI [of _ ?bl])
    apply (intro conjI allI impI)
    using out key err exact by (simp_all add: stable)
qed

theorem sort_colors_luminance_order_witness:
  "list_all convertible example_colors \<and> list_all rgb8 example_colors \<and>
   (\<exists>rs gs bl.
     sort_colors example_colors = Inr (rs @ gs @ bl) \<and>
     mset rs = mset (filter red_max example_colors) \<and>
     mset gs = mset (filter green_max example_colors) \<and>
     mset bl = mset (filter blue_max example_colors) \<and>
     sorted (map luminance_value rs) \<and>
     sorted (map luminance_value gs) \<and>
     sorted (map luminance_value bl) \<and>
     (\<forall>k. filter (\<lambda>c. luminance_value c = k) rs =
          filter (\<lambda>c. luminance_value c = k) (filter red_max example_colors)) \<and>
     (\<forall>k. filter (\<lambda>c. luminance_value c = k) gs =
          filter (\<lambda>c. luminance_value c = k) (filter green_max example_colors)) \<and>
     (\<forall>k. filter (\<lambda>c. luminance_value c = k) bl =
          filter (\<lambda>c. luminance_value c = k) (filter blue_max example_colors)) \<and>
     (\<forall>c\<in>set example_colors. \<bar>luminance_value c - spec_luminance c\<bar> \<le> 1 / 2 ^ 42) \<and>
     sorted (map spec_luminance rs) \<and>
     sorted (map spec_luminance gs) \<and>
     sorted (map spec_luminance bl))"
proof -
  have c: "list_all convertible example_colors"
    using example_colors_convertible by (simp only: list_all_iff)
  have r: "list_all rgb8 example_colors"
    using example_colors_rgb8 by (simp only: list_all_iff)
  show ?thesis
    using sort_colors_luminance_order [OF example_colors_convertible]
    apply (elim exE conjE)
    subgoal for rs gs bl
      apply (intro conjI)
        apply (rule c)
       apply (rule r)
      apply (rule exI [of _ rs])
      apply (rule exI [of _ gs])
      apply (rule exI [of _ bl])
      using example_colors_rgb8 apply (intro conjI; blast)
      done
    done
qed

text \<open>
  Claim C2 as stated fails in its second half.  The colours \<open>(100, 50, 40)\<close> and
  \<open>(111, 51, 6)\<close> of the red bucket have the same luminance \<open>63.81\<close>; their keys differ in
  the last bit (Python prints \<open>63.81\<close> and \<open>63.809999999999995\<close>), and \<open>sort_colors\<close>
  puts the second before the first: they do not keep the order of the input.
\<close>

theorem equal_luminance_reordered:
  "rgb8 (100, 50, 40) \<and> rgb8 (111, 51, 6) \<and>
   spec_luminance (100, 50, 40) = spec_luminance (111, 51, 6) \<and>
   red_max (100, 50, 40) \<and> red_max (111, 51, 6) \<and>
   sort_colors [(100, 50, 40), (111, 51, 6)] = Inr [(111, 51, 6), (100, 50, 40)]"
  by code_simp

subsection \<open>The number of clusters\<close>

text \<open>
  Claim C6.  For every count \<open>u \<ge> 0\<close> of unique elements, the cluster count computed by
  lines 122 and 123 lies between 5 and 24 and is \<open>min (5 + u // 6) 24\<close>; the value
  \<open>5 + u // 6\<close> is never below 2, so the branch that assigns 5 for it is never taken.
\<close>

theorem clusters_num_range:
  assumes "0 \<le> u"
  shows "5 \<le> clusters_num u \<and> clusters_num u \<le> 24 \<and>
         clusters_num u = min (5 + u div 6) 24 \<and> \<not> (5 + u div 6 < 2)"
proof -
  have "0 \<le> u div 6"
    using assms by (simp add: pos_imp_zdiv_nonneg_iff)
  then show ?thesis
    by (auto simp: clusters_num_def Let_def min_def)
qed

theorem clusters_num_range_witness:
  "(0::int) \<le> 200 \<and> 5 \<le> clusters_num 200 \<and> clusters_num 200 \<le> 24 \<and>
   clusters_num 200 = min (5 + 200 div 6) 24 \<and> \<not> (5 + (200::int) div 6 < 2)"
  using clusters_num_range [of 200] by simp

lemma requested_clusters_rows:
  "requested_clusters img = max 5 (min 24 (5 + int (length (remdups img)) div 6))"
  by (simp add: requested_clusters_def unique_colors_def clusters_num_def Let_def
      pos_imp_zdiv_nonneg_iff)

text \<open>
  Claim C3.  The count that enters the cluster count is the number of distinct rows of
  the image, not the number of distinct pixel colours: twelve colours in one row give
  5 clusters where the specification's count gives 7, and the same twelve pixels as
  twelve rows of one pixel give 7.
\<close>

theorem requested_clusters_counts_rows:
  "requested_clusters wide_image = 5 \<and> spec_clusters wide_image = 7 \<and>
   requested_clusters tall_image = 7 \<and> concat tall_image = concat wide_image"
  by code_simp

subsection \<open>The palette of a clustering\<close>

lemma length_centerize_histogram:
  "length (centerize_histogram clt) = length (remdups (labels clt))"
  by (simp add: centerize_histogram_def np_histogram_def Let_def)

lemma extract_colors_fitted:
  assumes "fit (requested_clusters img) (concat img) = Inr clt"
  shows "extract_colors fit img =
     sort_colors (map int_color (take (length (remdups (labels clt))) (cluster_centers clt)))"
proof -
  have "map (\<lambda>color. int_color (snd color)) (zip (centerize_histogram clt) (cluster_centers clt)) =
      map int_color (map snd (zip (centerize_histogram clt) (cluster_centers clt)))"
    by simp
  also have "\<dots> = map int_color (take (length (remdups (labels clt))) (cluster_centers clt))"
    by (simp only: map_snd_zip_take length_centerize_histogram take_all_iff min_def)
      (simp add: take_all)
  finally show ?thesis
    using assms by (simp add: extract_colors_def Let_def)
qed

lemma extract_colors_raises:
  assumes "fit (requested_clusters img) (concat img) = Inl e"
  shows "extract_colors fit img = Inl e"
  using assms by (simp add: extract_colors_def Let_def)

lemma keyed_luminance_fails:
  "\<exists>c\<in>set xs. \<not> convertible c \<Longrightarrow> keyed luminance xs = Inl OverflowError"
proof (induction xs)
  case Nil
  then show ?case by simp
next
  case (Cons x xs)
  show ?case
  proof (cases "convertible x")
    case False
    then show ?thesis by (simp add: luminance_not_convertible)
  next
    case True
    with Cons.prems have "\<exists>c\<in>set xs. \<not> convertible c" by simp
    with Cons.IH True show ?thesis by (simp add: luminance_convertible)
  qed
qed

lemma sorted_py_luminance_cases:
  "sorted_py luminance xs =
     (if \<forall>c\<in>set xs. convertible c then Inr (sort_key luminance_value xs)
      else Inl OverflowError)"
proof (cases "\<forall>c\<in>set xs. convertible c")
  case True
  then show ?thesis by (simp add: sorted_py_luminance)
next
  case False
  then have "keyed luminance xs = Inl OverflowError"
    by (intro keyed_luminance_fails) simp
  with False show ?thesis by (simp add: sorted_py_def)
qed

lemma sort_colors_fails:
  assumes "\<not> (\<forall>c\<in>set l. convertible c)"
  shows "sort_colors l = Inl OverflowError"
proof -
  let ?R = "\<forall>c\<in>set (filter red_max l). convertible c"
  let ?G = "\<forall>c\<in>set (filter green_max l). convertible c"
  let ?B = "\<forall>c\<in>set (filter blue_max l). convertible c"
  from assms obtain c where c: "c \<in> set l" "\<not> convertible c" by blast
  consider "red_max c" | "green_max c" | "blue_max c"
    using max_exhaustive by blast
  then have "\<not> ?R \<or> \<not> ?G \<or> \<not> ?B"
  proof cases
    case 1
    with c have "c \<in> set (filter red_max l)" by simp
    with c show ?thesis by blast
  next
    case 2
    with c have "c \<in> set (filter green_max l)" by simp
    with c show ?thesis by blast
  next
    case 3
    with c have "c \<in> set (filter blue_max l)" by simp
    with c show ?thesis by blast
  qed
  then consider (r) "\<not> ?R" | (g) "?R" "\<not> ?G" | (b) "?R" "?G" "\<not> ?B"
    by blast
  then show ?thesis
  proof cases
    case r
    then show ?thesis
      unfolding sort_colors_def partition_colors Let_def sorted_py_luminance_cases
      by simp
  next
    case g
    then show ?thesis
      unfolding sort_colors_def partition_colors Let_def sorted_py_luminance_cases
      by simp
  next
    case b
    then show ?thesis
      unfolding sort_colors_def partition_colors Let_def sorted_py_luminance_cases
      by simp
  qed
qed

lemma sort_colors_mset:
  assumes "\<forall>c\<in>set l. convertible c"
  shows "\<exists>out. sort_colors l = Inr out \<and> mset out = mset l"
proof -
  have "mset (sort_key luminance_value (filter red_max l) @
      sort_key luminance_value (filter green_max l) @
      sort_key luminance_value (filter blue_max l)) = mset l"
    using mset_partition [of l] by (simp add: ac_simps)
  with sort_colors_convertible [OF assms] show ?thesis by simp
qed

lemma py_int_truncates:
  "\<bar>of_int (py_int q)\<bar> \<le> \<bar>q\<bar> \<and> \<bar>q - of_int (py_int q)\<bar> < 1"
  unfolding py_int_def by (auto; linarith)

lemma mixed_fit_returns:
  "mixed_fit (requested_clusters mixed_image) (concat mixed_image) = Inr mixed_clustering"
  by (simp add: mixed_fit_def)

lemma mixed_centers_convertible:
  "\<forall>c\<in>set (cluster_centers mixed_clustering). convertible (int_color c)"
  by code_simp

lemma gap_fit_returns:
  "gap_fit (requested_clusters gap_image) (concat gap_image) = Inr gap_clustering"
  by (simp add: gap_fit_def)

lemma gap_centers_convertible:
  "\<forall>c\<in>set (cluster_centers gap_clustering). convertible (int_color c)"
  by code_simp

lemma convertible_take:
  assumes "\<forall>c\<in>set cs. convertible (int_color c)"
  shows "\<forall>c\<in>set (map int_color (take n cs)). convertible c"
  using assms by (auto dest: in_set_takeD)

subsection \<open>What \<open>extract_colors\<close> returns\<close>

text \<open>
  Claim C10, as the code has it.  When the labels of the clustering take exactly \<open>L\<close>
  distinct values, \<open>centerize_histogram\<close> returns \<open>L\<close> weights, whatever the number of
  clusters, and \<open>zip\<close> pairs them with the first \<open>L\<close> centres: the palette is
  \<open>sort_colors\<close> of the first \<open>L\<close> centres, each channel truncated toward zero by \<open>int\<close>.
  It has \<open>min L K\<close> colours, a permutation of those; the labels enter by their number \<open>L\<close>
  alone, so the centres after the first \<open>L\<close> are dropped whichever clusters are unused.
  The integer \<open>int(q)\<close> is the one between 0 and \<open>q\<close> at a distance below 1 from \<open>q\<close>.
  The centres are finite floats, whose integer parts Python converts back to float.
\<close>

theorem palette_is_first_centers:
  assumes "fit (requested_clusters img) (concat img) = Inr clt"
    and "L = card (set (labels clt))"
    and "\<forall>c\<in>set (cluster_centers clt). convertible (int_color c)"
  shows "length (centerize_histogram clt) = L \<and>
     extract_colors fit img =
       sort_colors (map (\<lambda>(x, y, z). (py_int x, py_int y, py_int z))
         (take L (cluster_centers clt))) \<and>
     (\<exists>out. extract_colors fit img = Inr out \<and>
        mset out = mset (map (\<lambda>(x, y, z). (py_int x, py_int y, py_int z))
          (take L (cluster_centers clt))) \<and>
        length out = min L (length (cluster_centers clt)) \<and>
        (\<forall>q. \<bar>of_int (py_int q)\<bar> \<le> \<bar>q\<bar> \<and> \<bar>q - of_int (py_int q)\<bar> < 1))"
proof -
  have L: "length (remdups (labels clt)) = L"
    using assms(2) by (simp add: length_remdups_card_conv)
  let ?cs = "map (\<lambda>(x, y, z). (py_int x, py_int y, py_int z)) (take L (cluster_centers clt))"
  have ic: "int_color = (\<lambda>(x, y, z). (py_int x, py_int y, py_int z))"
    by (rule ext) (simp add: int_color_def)
  have cs: "map int_color (take L (cluster_centers clt)) = ?cs"
    by (simp only: ic)
  have eq: "extract_colors fit img = sort_colors ?cs"
    using extract_colors_fitted [of fit img clt, OF assms(1)] by (simp only: L cs)
  have "\<forall>c\<in>set (map int_color (take L (cluster_centers clt))). convertible c"
    using assms(3) by (rule convertible_take)
  then have "\<forall>c\<in>set ?cs. convertible c"
    by (simp only: cs)
  from sort_colors_mset [OF this] obtain out
    where out: "sort_colors ?cs = Inr out" "mset out = mset ?cs"
    by blast
  from out(2) have "length out = length ?cs"
    by (metis size_mset)
  then have len: "length out = min L (length (cluster_centers clt))"
    by (simp add: min.commute)
  have hist: "length (centerize_histogram clt) = L"
    by (simp add: length_centerize_histogram L)
  from out len eq py_int_truncates have
    "\<exists>out. extract_colors fit img = Inr out \<and> mset out = mset ?cs \<and>
       length out = min L (length (cluster_centers clt)) \<and>
       (\<forall>q. \<bar>of_int (py_int q)\<bar> \<le> \<bar>q\<bar> \<and> \<bar>q - of_int (py_int q)\<bar> < 1)"
    by auto
  with hist eq show ?thesis
    by (intro conjI)
qed

theorem palette_is_first_centers_witness:
  "gap_fit (requested_clusters gap_image) (concat gap_image) = Inr gap_clustering \<and>
   2 = card (set (labels gap_clustering)) \<and>
   list_all (\<lambda>c. convertible (int_color c)) (cluster_centers gap_clustering) \<and>
   length (cluster_centers gap_clustering) = 5 \<and>
   length (centerize_histogram gap_clustering) = 2 \<and>
   extract_colors gap_fit gap_image =
     sort_colors (map (\<lambda>(x, y, z). (py_int x, py_int y, py_int z))
       (take 2 (cluster_centers gap_clustering))) \<and>
   (\<exists>out. extract_colors gap_fit gap_image = Inr out \<and>
      mset out = mset (map (\<lambda>(x, y, z). (py_int x, py_int y, py_int z))
        (take 2 (cluster_centers gap_clustering))) \<and>
      length out = min 2 (length (cluster_centers gap_clustering)) \<and>
      (\<forall>q. \<bar>of_int (py_int q)\<bar> \<le> \<bar>q\<bar> \<and> \<bar>q - of_int (py_int q)\<bar> < 1))"
proof -
  have l: "2 = card (set (labels gap_clustering))"
    by (simp add: gap_clustering_def)
  have c: "list_all (\<lambda>c. convertible (int_color c)) (cluster_centers gap_clustering)"
    using gap_centers_convertible by (simp only: list_all_iff)
  have k: "length (cluster_centers gap_clustering) = 5"
    by (simp add: gap_clustering_def)
  show ?thesis
    using gap_fit_returns l c k
      palette_is_first_centers [of gap_fit gap_image gap_clustering 2,
        OF gap_fit_returns l gap_centers_convertible]
    by (intro conjI) (erule conjE | assumption)+
qed

text \<open>
  Claim C10 as stated fails in its word \<open>rounded\<close>.  Eight pixels in five clusters, all
  five in use: the centre \<open>(0, 200.75, 0)\<close> of the first gives the colour \<open>(0, 200, 0)\<close> of
  the palette, and rounded it is \<open>(0, 201, 0)\<close>, which the palette does not contain.
\<close>

theorem first_centers_not_rounded:
  "card (set (labels uneven_clustering)) = 5 \<and>
   length (cluster_centers uneven_clustering) = 5 \<and>
   extract_colors uneven_fit uneven_image =
     Inr [(100, 0, 0), (250, 0, 0), (0, 200, 0), (0, 0, 100), (0, 0, 250)] \<and>
   map spec_round_color (take 5 (cluster_centers uneven_clustering)) =
     [(0, 201, 0), (250, 0, 0), (0, 0, 250), (100, 0, 0), (0, 0, 100)] \<and>
   (0, 201, 0) \<notin>
     set ([(100, 0, 0), (250, 0, 0), (0, 200, 0), (0, 0, 100), (0, 0, 250)] :: color list)"
  by code_simp

text \<open>
  Claim C4, as far as the code has it by design.  When the clustering call returns, with
  as many centres as requested and every cluster index from 0 to \<open>K - 1\<close> among the
  labels, the palette has exactly \<open>K\<close> colours.
\<close>

theorem palette_length_full_clusters:
  assumes "fit (requested_clusters img) (concat img) = Inr clt"
    and "int (length (cluster_centers clt)) = requested_clusters img"
    and "set (labels clt) = {0..<length (cluster_centers clt)}"
    and "\<forall>c\<in>set (cluster_centers clt). convertible (int_color c)"
  shows "\<exists>out. extract_colors fit img = Inr out \<and>
           int (length out) = requested_clusters img"
proof -
  let ?L = "length (remdups (labels clt))"
  have "?L = card (set (labels clt))"
    by (simp add: length_remdups_card_conv)
  with assms(3) have L: "?L = length (cluster_centers clt)"
    by simp
  have eq: "extract_colors fit img = sort_colors (map int_color (cluster_centers clt))"
    using extract_colors_fitted [of fit img clt, OF assms(1)] by (simp add: L)
  have "\<forall>c\<in>set (map int_color (cluster_centers clt)). convertible c"
    using assms(4) by simp
  from sort_colors_mset [OF this] obtain out
    where out: "sort_colors (map int_color (cluster_centers clt)) = Inr out"
      "mset out = mset (map int_color (cluster_centers clt))"
    by blast
  from out(2) have "length out = length (cluster_centers clt)"
    by (metis length_map size_mset)
  with out(1) eq assms(2) show ?thesis by simp
qed

theorem palette_length_full_clusters_witness:
  "mixed_fit (requested_clusters mixed_image) (concat mixed_image) = Inr mixed_clustering \<and>
   int (length (cluster_centers mixed_clustering)) = requested_clusters mixed_image \<and>
   set (labels mixed_clustering) = {0..<length (cluster_centers mixed_clustering)} \<and>
   list_all (\<lambda>c. convertible (int_color c)) (cluster_centers mixed_clustering) \<and>
   (\<exists>out. extract_colors mixed_fit mixed_image = Inr out \<and>
      int (length out) = requested_clusters mixed_image)"
proof -
  have k: "int (length (cluster_centers mixed_clustering)) = requested_clusters mixed_image"
    by code_simp
  have l: "set (labels mixed_clustering) = {0..<length (cluster_centers mixed_clustering)}"
    by (auto simp: mixed_clustering_def)
  have c: "list_all (\<lambda>c. convertible (int_color c)) (cluster_centers mixed_clustering)"
    using mixed_centers_convertible by (simp only: list_all_iff)
  show ?thesis
    using mixed_fit_returns k l c
      palette_length_full_clusters [of mixed_fit mixed_image mixed_clustering,
        OF mixed_fit_returns k l mixed_centers_convertible]
    by (intro conjI)
qed

text \<open>
  Claim C4 as stated fails twice.  For an image of one pixel the clustering call raises
  (\<open>K = 5\<close> clusters of one sample) and \<open>extract_colors\<close> with it.  For the \<open>2 \<times> 3\<close> image
  of one colour the call returns, five clusters were requested, and the palette has one
  colour.
\<close>

theorem solid_image_palette_length:
  "concat [[(200, 100, 50)]] \<noteq> ([] :: pixel list) \<and>
   extract_colors failing_fit [[(200, 100, 50)]] = Inl (LibraryError ''ValueError'') \<and>
   concat solid_image \<noteq> [] \<and> requested_clusters solid_image = 5 \<and>
   length (cluster_centers solid_clustering) = 5 \<and>
   extract_colors solid_fit solid_image = Inr [(200, 100, 50)]"
  by code_simp

text \<open>
  Claim C5.  \<open>centerize_histogram\<close> makes one bin per distinct label, not one per
  cluster.  For the clustering of the image of one colour (five clusters, every pixel
  in cluster 0) it returns the one weight \<open>1.0\<close>.  For six pixels in the clusters 0 and 2
  of five it returns \<open>[0.5, 0.5]\<close>: the pixels of cluster 2 are counted in the last bin,
  at the index of the empty cluster 1.  When every cluster has a pixel the weights are
  those of the claim: \<open>[0.3, 0.2, 0.5]\<close> for its ten labels.
\<close>

theorem histogram_follows_distinct_labels:
  "centerize_histogram solid_clustering = [Finite 1] \<and>
   length (cluster_centers solid_clustering) = 5 \<and>
   centerize_histogram gap_clustering = [Finite (1 / 2), Finite (1 / 2)] \<and>
   length (cluster_centers gap_clustering) = 5 \<and>
   centerize_histogram
     \<lparr>cluster_centers = [(10, 0, 0), (0, 20, 0), (0, 0, 30)],
      labels = [0, 0, 0, 1, 1, 2, 2, 2, 2, 2]\<rparr> =
     [Finite (fl (3 / 10)), Finite (fl (2 / 10)), Finite (fl (5 / 10))]"
  by code_simp

text \<open>
  Claim C8, as the code has it.  Each colour of the palette is a centre of the
  clustering with every channel truncated toward zero by \<open>int\<close>, each channel on its own:
  the palette is a permutation of the truncated centres that \<open>zip\<close> keeps.  The integer
  \<open>int(q)\<close> is the one between 0 and \<open>q\<close> at a distance below 1 from \<open>q\<close>.
\<close>

theorem palette_truncates_centers:
  assumes "fit (requested_clusters img) (concat img) = Inr clt"
    and "\<forall>c\<in>set (cluster_centers clt). convertible (int_color c)"
  shows "\<exists>out. extract_colors fit img = Inr out \<and>
     mset out =
       mset (map int_color (take (length (remdups (labels clt))) (cluster_centers clt))) \<and>
     (\<forall>(x, y, z)\<in>set (cluster_centers clt).
        int_color (x, y, z) = (py_int x, py_int y, py_int z)) \<and>
     (\<forall>q. \<bar>of_int (py_int q)\<bar> \<le> \<bar>q\<bar> \<and> \<bar>q - of_int (py_int q)\<bar> < 1)"
proof -
  let ?cs = "map int_color (take (length (remdups (labels clt))) (cluster_centers clt))"
  have "\<forall>c\<in>set ?cs. convertible c"
    using assms(2) by (rule convertible_take)
  from sort_colors_mset [OF this] obtain out
    where "sort_colors ?cs = Inr out" "mset out = mset ?cs"
    by blast
  then have "extract_colors fit img = Inr out \<and> mset out = mset ?cs"
    using extract_colors_fitted [of fit img clt, OF assms(1)] by simp
  moreover have "\<forall>(x, y, z)\<in>set (cluster_centers clt).
      int_color (x, y, z) = (py_int x, py_int y, py_int z)"
    by (simp add: int_color_def)
  ultimately show ?thesis
    using py_int_truncates by blast
qed

theorem palette_truncates_centers_witness:
  "mixed_fit (requested_clusters mixed_image) (concat mixed_image) = Inr mixed_clustering \<and>
   list_all (\<lambda>c. convertible (int_color c)) (cluster_centers mixed_clustering) \<and>
   (\<exists>out. extract_colors mixed_fit mixed_image = Inr out \<and>
     mset out =
       mset (map int_color (take (length (remdups (labels mixed_clustering)))
         (cluster_centers mixed_clustering))) \<and>
     (\<forall>(x, y, z)\<in>set (cluster_centers mixed_clustering).
        int_color (x, y, z) = (py_int x, py_int y, py_int z)) \<and>
     (\<forall>q. \<bar>of_int (py_int q)\<bar> \<le> \<bar>q\<bar> \<and> \<bar>q - of_int (py_int q)\<bar> < 1))"
proof -
  have c: "list_all (\<lambda>c. convertible (int_color c)) (cluster_centers mixed_clustering)"
    using mixed_centers_convertible by (simp only: list_all_iff)
  show ?thesis
    using mixed_fit_returns c
      palette_truncates_centers [of mixed_fit mixed_image mixed_clustering,
        OF mixed_fit_returns mixed_centers_convertible]
    by (intro conjI)
qed

text \<open>
  Claim C8 as stated fails: the centre \<open>(2.75, 0, 0)\<close> of the first cluster gives the
  colour \<open>(2, 0, 0)\<close>, and the nearest integers are \<open>(3, 0, 0)\<close>.
\<close>

theorem centers_truncated_not_rounded:
  "extract_colors mixed_fit mixed_image =
     Inr [(2, 0, 0), (250, 0, 0), (0, 100, 0), (0, 250, 0), (0, 0, 250)] \<and>
   map spec_round_color (cluster_centers mixed_clustering) =
     [(3, 0, 0), (250, 0, 0), (0, 250, 0), (0, 100, 0), (0, 0, 250)]"
  by code_simp

subsection \<open>Errors\<close>

text \<open>
  Claim C9, as the code has it.  \<open>extract_colors\<close> checks nothing and catches nothing.
  It raises exactly when the clustering call raises, and then the same exception, or
  when \<open>luminance\<close> cannot convert a channel of a colour of the palette to float
  (\<open>OverflowError\<close>).
\<close>

theorem extract_colors_errors:
  "extract_colors fit img = Inl e \<longleftrightarrow>
     fit (requested_clusters img) (concat img) = Inl e \<or>
     (\<exists>clt. fit (requested_clusters img) (concat img) = Inr clt \<and> e = OverflowError \<and>
        \<not> (\<forall>c\<in>set (take (length (remdups (labels clt))) (cluster_centers clt)).
             convertible (int_color c)))"
proof (cases "fit (requested_clusters img) (concat img)")
  case (Inl e')
  then show ?thesis
    using extract_colors_raises [of fit img e'] by auto
next
  case (Inr clt)
  let ?cs = "map int_color (take (length (remdups (labels clt))) (cluster_centers clt))"
  have eq: "extract_colors fit img = sort_colors ?cs"
    using extract_colors_fitted [of fit img clt, OF Inr] .
  show ?thesis
  proof (cases "\<forall>c\<in>set ?cs. convertible c")
    case True
    from sort_colors_mset [OF this] obtain out where "sort_colors ?cs = Inr out"
      by blast
    with True Inr eq show ?thesis by simp
  next
    case False
    then have "sort_colors ?cs = Inl OverflowError"
      by (rule sort_colors_fails)
    with False Inr eq show ?thesis by auto
  qed
qed

theorem extract_colors_errors_witness:
  "extract_colors failing_fit [] = Inl (LibraryError ''ValueError'') \<and>
   failing_fit (requested_clusters []) (concat []) = Inl (LibraryError ''ValueError'')"
  using extract_colors_errors [of failing_fit "[]" "LibraryError ''ValueError''"]
  by (simp add: failing_fit_def)

text \<open>
  Claim C9 as stated fails.  The image with no pixel goes to the clustering call like
  any other; the exception of the library reaches the caller as it is, the same for the
  image with no pixel and for a failure of the clustering on an image of one pixel.
  Nothing computed from what \<open>extract_colors\<close> raises tells an \<open>InvalidInput\<close> from a
  \<open>ClusteringFailed\<close>.
\<close>

theorem library_error_unclassified:
  "extract_colors failing_fit [] = Inl (LibraryError ''ValueError'') \<and>
   extract_colors failing_fit [[(1, 2, 3)]] = Inl (LibraryError ''ValueError'') \<and>
   \<not> (\<exists>kind :: exn + color list \<Rightarrow> spec_error_kind.
        kind (extract_colors failing_fit []) = InvalidInput \<and>
        kind (extract_colors failing_fit [[(1, 2, 3)]]) = ClusteringFailed)"
proof -
  have a: "extract_colors failing_fit [] = Inl (LibraryError ''ValueError'')"
    by (simp add: extract_colors_def failing_fit_def)
  have b: "extract_colors failing_fit [[(1, 2, 3)]] = Inl (LibraryError ''ValueError'')"
    by (simp add: extract_colors_def failing_fit_def)
  show ?thesis
    unfolding a b by simp
qed

end
